theory Spec2Isabelle
  imports Main "HOL-Library.AList" "HOL-Library.Sublist" "HOL-Library.Multiset"
begin

section \<open>JavaScript values and the browser services the code calls\<close>

text \<open>
  The application keeps everything in \<^verbatim>\<open>localStorage\<close> as JSON text, so the code works on
  whatever \<^verbatim>\<open>JSON.parse\<close> hands back. A value is modelled as the tree below. An object is
  an association list in insertion order; a property is read with \<open>map_of\<close>. Numbers are
  the integral values the application produces (\<^verbatim>\<open>Date.now()\<close> millisecond stamps);
  fractional and non-finite doubles are outside the model. Strings are ASCII text.
\<close>

datatype jsval =
    Undefined
  | Null
  | Bool bool
  | is_Num: Num (the_Num: int)
  | Str string
  | is_Arr: Arr (elems: "jsval list")
  | is_Obj: Obj (props: "(string \<times> jsval) list")

datatype exn = TypeError | SyntaxError | QuotaExceededError

type_synonym storage = "(string \<times> string) list"

type_synonym post = "(string \<times> jsval) list"

text \<open>
  The built-ins of the browser that the sources call but do not define. \<open>JSON_parse\<close>
  gives \<open>None\<close> where \<^verbatim>\<open>JSON.parse\<close> throws a SyntaxError; \<open>JSON_stringify\<close> gives \<open>None\<close>
  where \<^verbatim>\<open>JSON.stringify\<close> returns \<^verbatim>\<open>undefined\<close>; \<open>Date_parse\<close> takes the argument as the
  code passes it (the host converts it to a string) and gives \<open>None\<close> for \<^verbatim>\<open>NaN\<close>;
  \<open>randomUUID h n\<close> is the result of the \<open>n\<close>-th call of \<^verbatim>\<open>crypto.randomUUID()\<close>;
  \<open>quota_ok\<close> says whether \<^verbatim>\<open>localStorage.setItem\<close> accepts a write.
\<close>

record host =
  JSON_parse :: "string \<Rightarrow> jsval option"
  JSON_stringify :: "jsval \<Rightarrow> string option"
  Date_parse :: "jsval \<Rightarrow> int option"
  Date_now :: int
  randomUUID :: "nat \<Rightarrow> string"
  quota_ok :: "storage \<Rightarrow> string \<Rightarrow> string \<Rightarrow> bool"

subsection \<open>Truthiness, property access, string methods\<close>

fun truthy :: "jsval \<Rightarrow> bool" where
  "truthy Undefined = False"
| "truthy Null = False"
| "truthy (Bool b) = b"
| "truthy (Num n) = (n \<noteq> 0)"
| "truthy (Str s) = (s \<noteq> [])"
| "truthy (Arr xs) = True"
| "truthy (Obj fs) = True"

text \<open>\<^verbatim>\<open>a || b\<close> and the test of \<^verbatim>\<open>a ?? b\<close>.\<close>

definition js_or :: "jsval \<Rightarrow> jsval \<Rightarrow> jsval" where
  "js_or a b = (if truthy a then a else b)"

definition nullish :: "jsval \<Rightarrow> bool" where
  "nullish v = (v = Undefined \<or> v = Null)"

text \<open>\<^verbatim>\<open>p.k\<close> on an object literal: the stored value, or \<^verbatim>\<open>undefined\<close>.\<close>

definition field :: "(string \<times> jsval) list \<Rightarrow> string \<Rightarrow> jsval" where
  "field fs k = (case map_of fs k of None \<Rightarrow> Undefined | Some v \<Rightarrow> v)"

text \<open>
  \<^verbatim>\<open>v.k\<close> on any value, for the keys the sources read (\<^verbatim>\<open>id\<close>, \<^verbatim>\<open>username\<close>,
  \<^verbatim>\<open>password\<close>), none of which a built-in prototype defines: a TypeError on
  \<^verbatim>\<open>null\<close> and \<^verbatim>\<open>undefined\<close>, the own property of an object, \<^verbatim>\<open>undefined\<close> otherwise.
\<close>

fun get_prop :: "jsval \<Rightarrow> string \<Rightarrow> exn + jsval" where
  "get_prop Undefined k = Inl TypeError"
| "get_prop Null k = Inl TypeError"
| "get_prop (Obj fs) k = Inr (field fs k)"
| "get_prop v k = Inr Undefined"

definition is_ws :: "char \<Rightarrow> bool" where
  "is_ws c = (c \<in> set [CHR 0x09, CHR 0x0A, CHR 0x0B, CHR 0x0C, CHR 0x0D, CHR '' ''])"

definition trim :: "string \<Rightarrow> string" where
  "trim s = rev (dropWhile is_ws (rev (dropWhile is_ws s)))"

definition lower_char :: "char \<Rightarrow> char" where
  "lower_char c =
     (let n = (of_char c :: nat) in if 65 \<le> n \<and> n \<le> 90 then char_of (n + 32) else c)"

definition toLowerCase :: "string \<Rightarrow> string" where
  "toLowerCase s = map lower_char s"

text \<open>
  \<^verbatim>\<open>v.toLowerCase()\<close> on a value that is not \<^verbatim>\<open>null\<close> or \<^verbatim>\<open>undefined\<close>: only a string
  has the method, on anything else the call is a TypeError.
\<close>

fun toLowerCase_of :: "jsval \<Rightarrow> exn + string" where
  "toLowerCase_of (Str s) = Inr (toLowerCase s)"
| "toLowerCase_of v = Inl TypeError"

text \<open>\<^verbatim>\<open>s.includes(needle)\<close> on strings.\<close>

fun str_includes :: "string \<Rightarrow> string \<Rightarrow> bool" where
  "str_includes [] needle = (needle = [])"
| "str_includes (c # cs) needle = (prefix needle (c # cs) \<or> str_includes cs needle)"

subsection \<open>localStorage\<close>

definition getItem :: "storage \<Rightarrow> string \<Rightarrow> string option" where
  "getItem st k = map_of st k"

definition setItem :: "host \<Rightarrow> storage \<Rightarrow> string \<Rightarrow> string \<Rightarrow> exn + storage" where
  "setItem h st k v =
     (if quota_ok h st k v then Inr (AList.update k v st) else Inl QuotaExceededError)"

definition removeItem :: "storage \<Rightarrow> string \<Rightarrow> storage" where
  "removeItem st k = AList.delete k st"

text \<open>\<^verbatim>\<open>setItem\<close> stores the string form of its argument: \<^verbatim>\<open>undefined\<close> becomes that word.\<close>

definition String_of :: "string option \<Rightarrow> string" where
  "String_of r = (case r of None \<Rightarrow> ''undefined'' | Some s \<Rightarrow> s)"

section \<open>hooks/useLocalStorage.js\<close>

text \<open>
  The state initialiser of the hook (source lines 24 to 27):
  \<^verbatim>\<open>const raw = localStorage.getItem(key); return raw ? JSON.parse(raw) : initial;\<close>
  A SyntaxError of \<^verbatim>\<open>JSON.parse\<close> is not caught here.
\<close>

definition useLocalStorage_init :: "host \<Rightarrow> storage \<Rightarrow> string \<Rightarrow> jsval \<Rightarrow> exn + jsval" where
  "useLocalStorage_init h st key initial =
     (case getItem st key of
        None \<Rightarrow> Inr initial
      | Some raw \<Rightarrow>
          if raw = [] then Inr initial
          else (case JSON_parse h raw of None \<Rightarrow> Inl SyntaxError | Some v \<Rightarrow> Inr v))"

text \<open>
  The effect of the hook (lines 30 to 32):
  \<^verbatim>\<open>localStorage.setItem(key, JSON.stringify(value))\<close>, with dependencies \<^verbatim>\<open>[key, value]\<close>.
\<close>

definition useLocalStorage_effect :: "host \<Rightarrow> storage \<Rightarrow> string \<Rightarrow> jsval \<Rightarrow> exn + storage" where
  "useLocalStorage_effect h st key v = setItem h st key (String_of (JSON_stringify h v))"

text \<open>
  The first render of a component that calls \<^verbatim>\<open>useLocalStorage(key, initial)\<close>: React runs
  the initialiser, and after the render it runs every effect once, whatever its
  dependencies. The result is the state value and the storage left behind.
\<close>

definition useLocalStorage :: "host \<Rightarrow> storage \<Rightarrow> string \<Rightarrow> jsval \<Rightarrow> exn + jsval \<times> storage" where
  "useLocalStorage h st key initial =
     (case useLocalStorage_init h st key initial of
        Inl e \<Rightarrow> Inl e
      | Inr v \<Rightarrow>
          (case useLocalStorage_effect h st key v of
             Inl e \<Rightarrow> Inl e
           | Inr st' \<Rightarrow> Inr (v, st')))"

section \<open>context/AuthContext.jsx (src/unnamed/part_000)\<close>

text \<open>
  The provider holds two pieces of state, each the value of a \<^verbatim>\<open>useLocalStorage\<close> call:
  \<^verbatim>\<open>isAuthed\<close> (key \<^verbatim>\<open>"isAuthed"\<close>, initially \<^verbatim>\<open>false\<close>) and \<^verbatim>\<open>storedAccount\<close> (key
  \<^verbatim>\<open>"auth:account"\<close>, initially \<^verbatim>\<open>null\<close>). Both are whatever the storage held, so both
  are values of any shape. The operations receive the strings of the form fields, for
  which \<^verbatim>\<open>String(un ?? "")\<close> is the argument itself.
\<close>

record auth =
  isAuthed :: jsval
  storedAccount :: jsval

text \<open>The object the operations return: \<^verbatim>\<open>{ ok, created?, error? }\<close>.\<close>

record result =
  ok :: bool
  created :: "bool option"
  error :: "string option"

definition failure :: "string \<Rightarrow> result" where
  "failure msg = \<lparr>ok = False, created = None, error = Some msg\<rparr>"

text \<open>\<^verbatim>\<open>x === y\<close> with a string on the left.\<close>

definition strict_eq_str :: "string \<Rightarrow> exn + jsval \<Rightarrow> exn + bool" where
  "strict_eq_str s r = (case r of Inl e \<Rightarrow> Inl e | Inr v \<Rightarrow> Inr (v = Str s))"

text \<open>
  The body of the \<^verbatim>\<open>try\<close> block of \<^verbatim>\<open>login\<close> (lines 35 to 47). The conjunction
  \<^verbatim>\<open>acc && user === acc.username && input === acc.password\<close> is evaluated left to right
  and stops at the first false operand.
\<close>

definition login_try :: "auth \<Rightarrow> string \<Rightarrow> string \<Rightarrow> exn + result \<times> auth" where
  "login_try s un pw =
     (let user = trim un; input = trim pw in
      if user = [] \<or> input = [] then Inr (failure ''Incorrect username or password'', s)
      else
        let acc = (if storedAccount s = Undefined then Null else storedAccount s) in
        case (if \<not> truthy acc then Inr False
              else case strict_eq_str user (get_prop acc ''username'') of
                     Inl e \<Rightarrow> Inl e
                   | Inr False \<Rightarrow> Inr False
                   | Inr True \<Rightarrow> strict_eq_str input (get_prop acc ''password'')) of
          Inl e \<Rightarrow> Inl e
        | Inr True \<Rightarrow> Inr (\<lparr>ok = True, created = None, error = None\<rparr>, s\<lparr>isAuthed := Bool True\<rparr>)
        | Inr False \<Rightarrow> Inr (failure ''Incorrect username or password'', s))"

definition login :: "auth \<Rightarrow> string \<Rightarrow> string \<Rightarrow> result \<times> auth" where
  "login s un pw =
     (case login_try s un pw of
        Inr r \<Rightarrow> r
      | Inl e \<Rightarrow> (failure ''Internal auth error'', s))"

text \<open>The body of the \<^verbatim>\<open>try\<close> block of \<^verbatim>\<open>createAccount\<close> (lines 63 to 75).\<close>

definition createAccount_try :: "auth \<Rightarrow> string \<Rightarrow> string \<Rightarrow> exn + result \<times> auth" where
  "createAccount_try s un pw =
     (let user = trim un; input = trim pw in
      if user = [] then Inr (failure ''Username required'', s)
      else if input = [] then Inr (failure ''Password required'', s)
      else
        case (if \<not> truthy (storedAccount s) then Inr False
              else strict_eq_str user (get_prop (storedAccount s) ''username'')) of
          Inl e \<Rightarrow> Inl e
        | Inr True \<Rightarrow> Inr (failure ''Account already exists'', s)
        | Inr False \<Rightarrow>
            Inr (\<lparr>ok = True, created = Some True, error = None\<rparr>,
                 s\<lparr>storedAccount := Obj [(''username'', Str user), (''password'', Str input)],
                   isAuthed := Bool True\<rparr>))"

definition createAccount :: "auth \<Rightarrow> string \<Rightarrow> string \<Rightarrow> result \<times> auth" where
  "createAccount s un pw =
     (case createAccount_try s un pw of
        Inr r \<Rightarrow> r
      | Inl e \<Rightarrow> (failure ''Failed to create account'', s))"

definition logout :: "auth \<Rightarrow> auth" where
  "logout s = s\<lparr>isAuthed := Bool False\<rparr>"

section \<open>sections/Blog.jsx\<close>

subsection \<open>Seeding, loading and saving the posts\<close>

text \<open>
  \<^verbatim>\<open>makeDefaults\<close> (lines 38 to 66) reads the clock once and then draws three identifiers.
  The second component is the number of identifiers drawn so far.
\<close>

definition makeDefaults :: "host \<Rightarrow> nat \<Rightarrow> post list \<times> nat" where
  "makeDefaults h n =
     (let now = Date_now h in
      ([[(''id'', Str (randomUUID h n)),
         (''title'', Str ''Welcome to the Blog''),
         (''body'', Str ''This is your first post. You can edit or delete it, or create your own. Pro tip: add tags like #intro to make filtering easier.''),
         (''tags'', Arr [Str ''intro'', Str ''welcome'']),
         (''image'', Str ''/placeholder.jpg''),
         (''createdAt'', Num now)],
        [(''id'', Str (randomUUID h (n + 1))),
         (''title'', Str ''Adding Images to Posts''),
         (''body'', Str ''Attach a photo to your post. Large images are downscaled in some places to keep things snappy.''),
         (''tags'', Arr [Str ''howto'', Str ''images'']),
         (''image'', Str ''/placeholder.jpg''),
         (''createdAt'', Num (now - 1000 * 60 * 60 * 24))],
        [(''id'', Str (randomUUID h (n + 2))),
         (''title'', Str ''Tag Filtering Demo''),
         (''body'', Str ''Use the tag chips above the list to filter posts. Try clicking on #demo or #tips.''),
         (''tags'', Arr [Str ''demo'', Str ''tips'']),
         (''image'', Str ''/placeholder.jpg''),
         (''createdAt'', Num (now - 1000 * 60 * 60 * 48))]],
       n + 3))"

text \<open>
  \<^verbatim>\<open>savePosts\<close> (lines 89 to 99). The key is the constant \<^verbatim>\<open>"posts"\<close>. A failing
  \<^verbatim>\<open>setItem\<close> is caught and logged, and the storage stays as it was.
\<close>

definition savePosts :: "host \<Rightarrow> storage \<Rightarrow> post list \<Rightarrow> storage" where
  "savePosts h st posts =
     (if posts = [] then removeItem st ''posts''
      else
        (case setItem h st ''posts'' (String_of (JSON_stringify h (Arr (map Obj posts)))) of
           Inl e \<Rightarrow> st
         | Inr st' \<Rightarrow> st'))"

text \<open>
  The object spread \<^verbatim>\<open>{...p}\<close>: the own properties of an object; the indexed elements
  of an array or the indexed characters of a string; nothing for the other values.
\<close>

fun digit_string :: "nat \<Rightarrow> string" where
  "digit_string n =
     (if n < 10 then [char_of (48 + n)] else digit_string (n div 10) @ [char_of (48 + n mod 10)])"

definition indexed :: "jsval list \<Rightarrow> (string \<times> jsval) list" where
  "indexed xs = map (\<lambda>i. (digit_string i, xs ! i)) [0 ..< length xs]"

fun spread :: "jsval \<Rightarrow> (string \<times> jsval) list" where
  "spread (Obj fs) = fs"
| "spread (Arr xs) = indexed xs"
| "spread (Str s) = indexed (map (\<lambda>c. Str [c]) s)"
| "spread v = []"

text \<open>
  The callback of line 72, mapped over the stored array:
  \<^verbatim>\<open>raw.map((p) => ({ ...p, id: p.id ?? crypto.randomUUID() }))\<close>.
  An identifier is drawn only for an element whose \<^verbatim>\<open>id\<close> is \<^verbatim>\<open>null\<close> or \<^verbatim>\<open>undefined\<close>; the
  read \<^verbatim>\<open>p.id\<close> throws on an element that is itself \<^verbatim>\<open>null\<close>, which ends the map.
\<close>

fun assign_ids :: "host \<Rightarrow> jsval list \<Rightarrow> nat \<Rightarrow> (exn + post list) \<times> nat" where
  "assign_ids h [] n = (Inr [], n)"
| "assign_ids h (p # ps) n =
     (case get_prop p ''id'' of
        Inl e \<Rightarrow> (Inl e, n)
      | Inr v \<Rightarrow>
          let (idv, n') = (if nullish v then (Str (randomUUID h n), Suc n) else (v, n)) in
          (case assign_ids h ps n' of
             (Inl e, m) \<Rightarrow> (Inl e, m)
           | (Inr qs, m) \<Rightarrow> (Inr (AList.update ''id'' idv (spread p) # qs), m)))"

text \<open>
  \<^verbatim>\<open>getPosts\<close> (lines 37 to 84): the posts, the storage left behind and the number of
  identifiers drawn. \<open>getPosts_try\<close> is the \<^verbatim>\<open>try\<close> block; an exception carries the
  number of identifiers drawn before it.
\<close>

definition getPosts_try :: "host \<Rightarrow> storage \<Rightarrow> nat \<Rightarrow> (exn \<times> nat) + (post list \<times> storage \<times> nat)" where
  "getPosts_try h st n =
     (let text = (case getItem st ''posts'' of
                    None \<Rightarrow> ''[]''
                  | Some s \<Rightarrow> if s = [] then ''[]'' else s) in
      case JSON_parse h text of
        None \<Rightarrow> Inl (SyntaxError, n)
      | Some raw \<Rightarrow>
          if is_Arr raw \<and> length (elems raw) > 0 then
            (case assign_ids h (elems raw) n of
               (Inl e, m) \<Rightarrow> Inl (e, m)
             | (Inr ps, m) \<Rightarrow> Inr (ps, st, m))
          else
            let (defaults, m) = makeDefaults h n in
            Inr (defaults, savePosts h st defaults, m))"

definition getPosts :: "host \<Rightarrow> storage \<Rightarrow> nat \<Rightarrow> post list \<times> storage \<times> nat" where
  "getPosts h st n =
     (case getPosts_try h st n of
        Inr r \<Rightarrow> r
      | Inl (e, m) \<Rightarrow>
          let (defaults, m') = makeDefaults h m in
          (defaults, savePosts h st defaults, m'))"

subsection \<open>The derived list: search, tag filter, sort\<close>

text \<open>\<^verbatim>\<open>Array.isArray(v) ? v : []\<close>.\<close>

definition array_or_empty :: "jsval \<Rightarrow> jsval list" where
  "array_or_empty v = (if is_Arr v then elems v else [])"

text \<open>\<^verbatim>\<open>xs.map(f)\<close> and \<^verbatim>\<open>xs.filter(f)\<close> with a callback that may throw: the first throw ends the loop.\<close>

fun map_exn :: "('a \<Rightarrow> exn + 'b) \<Rightarrow> 'a list \<Rightarrow> exn + 'b list" where
  "map_exn f [] = Inr []"
| "map_exn f (x # xs) =
     (case f x of
        Inl e \<Rightarrow> Inl e
      | Inr y \<Rightarrow> (case map_exn f xs of Inl e \<Rightarrow> Inl e | Inr ys \<Rightarrow> Inr (y # ys)))"

fun filter_exn :: "('a \<Rightarrow> exn + bool) \<Rightarrow> 'a list \<Rightarrow> exn + 'a list" where
  "filter_exn f [] = Inr []"
| "filter_exn f (x # xs) =
     (case f x of
        Inl e \<Rightarrow> Inl e
      | Inr b \<Rightarrow>
          (case filter_exn f xs of
             Inl e \<Rightarrow> Inl e
           | Inr ys \<Rightarrow> Inr (if b then x # ys else ys)))"

text \<open>
  The callback of the text search (lines 166 to 182). The three constants \<^verbatim>\<open>title\<close>,
  \<^verbatim>\<open>content\<close> and \<^verbatim>\<open>tags\<close> are computed before the disjunction is.
\<close>

definition search_hit :: "string \<Rightarrow> post \<Rightarrow> exn + bool" where
  "search_hit needle p =
     (case toLowerCase_of (js_or (field p ''title'') (Str [])) of
        Inl e \<Rightarrow> Inl e
      | Inr title \<Rightarrow>
     (case toLowerCase_of
             (js_or (js_or (js_or (field p ''content'') (field p ''body'')) (field p ''excerpt''))
                (Str [])) of
        Inl e \<Rightarrow> Inl e
      | Inr content \<Rightarrow>
     (case map_exn (\<lambda>t. toLowerCase_of (js_or t (Str []))) (array_or_empty (field p ''tags'')) of
        Inl e \<Rightarrow> Inl e
      | Inr tags \<Rightarrow>
          Inr (str_includes title needle \<or> str_includes content needle
               \<or> list_ex (\<lambda>t. str_includes t needle) tags))))"

text \<open>
  The callback of the tag filter (lines 186 to 189):
  \<^verbatim>\<open>selectedTags.every((t) => tags.includes(t))\<close>, the selected tags being strings.
\<close>

definition has_tags :: "string list \<Rightarrow> post \<Rightarrow> bool" where
  "has_tags selectedTags p =
     (let tags = array_or_empty (field p ''tags'') in
      list_all (\<lambda>t. Str t \<in> set tags) selectedTags)"

text \<open>\<^verbatim>\<open>getTime\<close> (lines 193 to 197).\<close>

definition getTime :: "host \<Rightarrow> post \<Rightarrow> int" where
  "getTime h p =
     (if is_Num (field p ''createdAt'') then the_Num (field p ''createdAt'')
      else
        (case Date_parse h
                (js_or (js_or (field p ''date'') (field p ''publishedAt'')) (field p ''createdAt'')) of
           None \<Rightarrow> 0
         | Some t \<Rightarrow> t))"

text \<open>
  \<^verbatim>\<open>Array.prototype.sort\<close> with a comparator: a stable sort, here by insertion from the
  right. An element moves in front of its neighbour only while the comparator is
  positive, so elements that compare equal keep their order.
\<close>

fun insert_by :: "('a \<Rightarrow> 'a \<Rightarrow> int) \<Rightarrow> 'a \<Rightarrow> 'a list \<Rightarrow> 'a list" where
  "insert_by cmp x [] = [x]"
| "insert_by cmp x (y # ys) = (if cmp x y \<le> 0 then x # y # ys else y # insert_by cmp x ys)"

definition Array_sort :: "('a \<Rightarrow> 'a \<Rightarrow> int) \<Rightarrow> 'a list \<Rightarrow> 'a list" where
  "Array_sort cmp xs = foldr (insert_by cmp) xs []"

text \<open>
  \<^verbatim>\<open>filtered\<close> (lines 159 to 204), the list the component displays, as a function of the
  posts, the search text, the selected tags and the sort order (the state \<^verbatim>\<open>sort\<close>).
\<close>

definition filtered :: "host \<Rightarrow> post list \<Rightarrow> string \<Rightarrow> string list \<Rightarrow> string \<Rightarrow> exn + post list" where
  "filtered h posts search selectedTags sortOrder =
     (let list = posts;
          needle = toLowerCase (trim search) in
      case (if needle = [] then Inr list else filter_exn (search_hit needle) list) of
        Inl e \<Rightarrow> Inl e
      | Inr out \<Rightarrow>
          let out' = (if selectedTags \<noteq> [] then filter (has_tags selectedTags) out else out) in
          Inr (Array_sort
                 (\<lambda>a b. if sortOrder = ''newest'' then getTime h b - getTime h a
                        else getTime h a - getTime h b)
                 out'))"

section \<open>A host for the examples\<close>

text \<open>
  One browser, fixed on the few inputs the examples below feed it, where it answers as
  every browser does: \<^verbatim>\<open>JSON.parse("{")\<close> throws, \<^verbatim>\<open>JSON.stringify(false)\<close> is
  \<^verbatim>\<open>"false"\<close>, \<^verbatim>\<open>Date.parse("2020-01-01")\<close> is 1577836800000 and
  \<^verbatim>\<open>Date.parse("not a date")\<close> is \<^verbatim>\<open>NaN\<close>. The theorems hold for every host; the examples
  run on this one.
\<close>

definition sample_parse :: "string \<Rightarrow> jsval option" where
  \<open>sample_parse s =
     (if s = ''false'' then Some (Bool False)
      else if s = ''null'' then Some Null
      else if s = ''[]'' then Some (Arr [])
      else if s = ''[{"title":"Old","tags":["pets"]},{"id":"a1","title":"Kept"}]'' then
        Some (Arr [Obj [(''title'', Str ''Old''), (''tags'', Arr [Str ''pets''])],
                   Obj [(''id'', Str ''a1''), (''title'', Str ''Kept'')]])
      else if s = ''[{"id":"n1","title":5}]'' then
        Some (Arr [Obj [(''id'', Str ''n1''), (''title'', Num 5)]])
      else None)\<close>

definition sample_stringify :: "jsval \<Rightarrow> string option" where
  \<open>sample_stringify v =
     (if v = Bool False then Some ''false''
      else if v = Null then Some ''null''
      else if v = Arr [] then Some ''[]''
      else if v = Arr [Obj [(''id'', Str ''a1''), (''title'', Str ''Kept'')]] then
        Some ''[{"id":"a1","title":"Kept"}]''
      else None)\<close>

definition sample_date :: "jsval \<Rightarrow> int option" where
  "sample_date v =
     (if v = Str ''2020-01-01'' then Some 1577836800000
      else if v = Str ''1970-01-02'' then Some 86400000
      else None)"

definition sample_uuid :: "nat \<Rightarrow> string" where
  "sample_uuid n = ''id-'' @ digit_string n"

definition sample_host :: host where
  "sample_host =
     \<lparr>JSON_parse = sample_parse,
      JSON_stringify = sample_stringify,
      Date_parse = sample_date,
      Date_now = 1762041600000,
      randomUUID = sample_uuid,
      quota_ok = (\<lambda>st k v. True)\<rparr>"

section \<open>Vocabulary of the properties\<close>

text \<open>
  The stages of \<open>filtered\<close>, named: a post passes the search when there is no search text
  or the callback answers \<^verbatim>\<open>true\<close>; the list is in time order when neighbours compare as
  the sort order asks.
\<close>

definition kept_by_search :: "string \<Rightarrow> post \<Rightarrow> bool" where
  "kept_by_search needle p = (needle = [] \<or> search_hit needle p = Inr True)"

definition time_order :: "host \<Rightarrow> string \<Rightarrow> post \<Rightarrow> post \<Rightarrow> bool" where
  "time_order h sortOrder a b =
     (if sortOrder = ''newest'' then getTime h b \<le> getTime h a else getTime h a \<le> getTime h b)"

text \<open>
  The post shape that the head of Blog.jsx documents (lines 18 to 29) has strings for
  \<^verbatim>\<open>title\<close>, \<^verbatim>\<open>body\<close>, \<^verbatim>\<open>content\<close> and \<^verbatim>\<open>excerpt\<close>, the last three optional, and an array
  of strings for \<^verbatim>\<open>tags\<close>. The search callback guards what it reads with \<^verbatim>\<open>|| ""\<close>, so it
  takes a falsy value (\<^verbatim>\<open>undefined\<close>, \<^verbatim>\<open>null\<close>, ...) for an absent string. A value is
  \<open>opt_text\<close> when it is a string or falsy. A post is \<open>well_typed\<close> when the three values
  the callback lowers are: the title, the first truthy one of \<^verbatim>\<open>content\<close>, \<^verbatim>\<open>body\<close>,
  \<^verbatim>\<open>excerpt\<close> (the last when none is truthy), and every element of a \<^verbatim>\<open>tags\<close> array.
\<close>

definition opt_text :: "jsval \<Rightarrow> bool" where
  "opt_text v = (case v of Str s \<Rightarrow> True | _ \<Rightarrow> \<not> truthy v)"

fun text_of :: "jsval \<Rightarrow> string" where
  "text_of (Str s) = s"
| "text_of v = []"

definition well_typed :: "post \<Rightarrow> bool" where
  "well_typed p =
     (opt_text (field p ''title'')
      \<and> opt_text (js_or (js_or (field p ''content'') (field p ''body'')) (field p ''excerpt''))
      \<and> list_all opt_text (array_or_empty (field p ''tags'')))"

text \<open>
  The search as the specification words it: the primary content is the first non-empty
  of \<^verbatim>\<open>content\<close>, \<^verbatim>\<open>body\<close>, \<^verbatim>\<open>excerpt\<close>; a post matches when the needle is a substring of
  the case-folded title, of the case-folded primary content, or of a case-folded tag.
\<close>

definition primary_content :: "post \<Rightarrow> string" where
  "primary_content p =
     (case filter (\<lambda>s. s \<noteq> []) (map (\<lambda>k. text_of (field p k)) [''content'', ''body'', ''excerpt'']) of
        [] \<Rightarrow> []
      | s # rest \<Rightarrow> s)"

definition search_spec :: "string \<Rightarrow> post \<Rightarrow> bool" where
  "search_spec needle p =
     (sublist needle (toLowerCase (text_of (field p ''title'')))
      \<or> sublist needle (toLowerCase (primary_content p))
      \<or> list_ex (\<lambda>t. sublist needle (toLowerCase (text_of t))) (array_or_empty (field p ''tags'')))"

text \<open>The tag set of a post: the elements of its \<^verbatim>\<open>tags\<close> array, none without an array.\<close>

definition tag_set :: "post \<Rightarrow> jsval set" where
  "tag_set p = set (array_or_empty (field p ''tags''))"

text \<open>
  The sort key as the specification words it: a numeric \<^verbatim>\<open>createdAt\<close>, else the first of
  \<^verbatim>\<open>date\<close>, \<^verbatim>\<open>publishedAt\<close>, \<^verbatim>\<open>createdAt\<close> that parses as a date, else 0.
\<close>

definition spec_time :: "host \<Rightarrow> post \<Rightarrow> int" where
  "spec_time h p =
     (if is_Num (field p ''createdAt'') then the_Num (field p ''createdAt'')
      else
        (case List.map_filter (\<lambda>k. Date_parse h (field p k)) [''date'', ''publishedAt'', ''createdAt''] of
           [] \<Rightarrow> 0
         | t # rest \<Rightarrow> t))"

text \<open>The value \<open>getTime\<close> hands to \<^verbatim>\<open>Date.parse\<close>, and the key it makes of the answer.\<close>

definition date_candidate :: "post \<Rightarrow> jsval" where
  "date_candidate p =
     (if truthy (field p ''date'') then field p ''date''
      else if truthy (field p ''publishedAt'') then field p ''publishedAt''
      else field p ''createdAt'')"

definition parsed_or_epoch :: "host \<Rightarrow> jsval \<Rightarrow> int" where
  "parsed_or_epoch h v = (case Date_parse h v of None \<Rightarrow> 0 | Some t \<Rightarrow> t)"

text \<open>
  A stored record lacks an identifier when its \<^verbatim>\<open>id\<close> is \<^verbatim>\<open>undefined\<close> or \<^verbatim>\<open>null\<close>;
  \<open>missing_before vs i\<close> counts such records in front of position \<open>i\<close>.
\<close>

definition lacks_id :: "jsval \<Rightarrow> bool" where
  "lacks_id v = nullish (field (props v) ''id'')"

definition missing_before :: "jsval list \<Rightarrow> nat \<Rightarrow> nat" where
  "missing_before vs i = length (filter lacks_id (take i vs))"

section \<open>Posts for the examples\<close>

text \<open>The two records of the specification's search example, and two records with dates.\<close>

definition cats :: post where
  "cats = [(''title'', Str ''Cats''), (''tags'', Arr [Str ''pets'']), (''createdAt'', Num 100)]"

definition dogs :: post where
  "dogs = [(''title'', Str ''Dogs''), (''tags'', Arr [Str ''pets'', Str ''fun'']),
           (''createdAt'', Num 200)]"

definition stale :: post where
  "stale = [(''title'', Str ''A''), (''date'', Str ''not a date''),
            (''publishedAt'', Str ''2020-01-01'')]"

definition early :: post where
  "early = [(''title'', Str ''B''), (''createdAt'', Num 86400000)]"

definition legacy_text :: string where
  \<open>legacy_text = ''[{"title":"Old","tags":["pets"]},{"id":"a1","title":"Kept"}]''\<close>

definition numeric_text :: string where
  \<open>numeric_text = ''[{"id":"n1","title":5}]''\<close>

definition numeric_post :: post where
  "numeric_post = [(''id'', Str ''n1''), (''title'', Num 5)]"

text \<open>Reading a decimal numeral back, to tell the sample identifiers apart.\<close>

definition nat_of_digits :: "string \<Rightarrow> nat" where
  "nat_of_digits s = foldl (\<lambda>a c. 10 * a + (of_char c - 48)) 0 s"

section \<open>Basic facts\<close>

lemma getItem_update:
  "getItem (AList.update k v st) k' = (if k' = k then Some v else getItem st k')"
  by (simp add: getItem_def update_conv')

lemma getItem_delete:
  "getItem (AList.delete k st) k' = (if k' = k then None else getItem st k')"
  by (simp add: getItem_def delete_conv')

lemma truthy_get_prop: "truthy v \<Longrightarrow> get_prop v k \<noteq> Inl e"
  by (cases v) simp_all

section \<open>The persistent-state hook\<close>

text \<open>
  C1, as amended. Reading a key that has no entry gives the default, and the state
  initialiser writes nothing. The hook as a whole does write: its effect runs after the
  first render and, when the storage accepts the write, leaves the JSON text of the
  default under the key, every other key being as before.
\<close>

theorem useLocalStorage_untouched:
  assumes "getItem st k = None"
  shows "useLocalStorage_init h st k d = Inr d
       \<and> (quota_ok h st k (String_of (JSON_stringify h d)) \<longrightarrow>
            (\<exists>st'. useLocalStorage h st k d = Inr (d, st')
                 \<and> getItem st' k = Some (String_of (JSON_stringify h d))
                 \<and> (\<forall>k'. k' \<noteq> k \<longrightarrow> getItem st' k' = getItem st k')))"
  using assms
  by (simp add: useLocalStorage_def useLocalStorage_init_def useLocalStorage_effect_def
      setItem_def getItem_update)

theorem useLocalStorage_untouched_witness:
  "useLocalStorage_init sample_host [(''activeTab'', ''blog'')] ''isAuthed'' (Bool False)
     = Inr (Bool False)
   \<and> (\<exists>st'. useLocalStorage sample_host [(''activeTab'', ''blog'')] ''isAuthed'' (Bool False)
              = Inr (Bool False, st')
          \<and> getItem st' ''isAuthed'' = Some ''false''
          \<and> getItem st' ''activeTab'' = Some ''blog'')"
proof -
  have untouched: "getItem [(''activeTab'', ''blog'')] ''isAuthed'' = None"
    by (simp add: getItem_def)
  have stored: "String_of (JSON_stringify sample_host (Bool False)) = ''false''"
    by (simp add: String_of_def sample_host_def sample_stringify_def)
  have accepted: "quota_ok sample_host [(''activeTab'', ''blog'')] ''isAuthed'' ''false''"
    by (simp add: sample_host_def)
  have other: "getItem [(''activeTab'', ''blog'')] ''activeTab'' = Some ''blog''"
    by (simp add: getItem_def)
  show ?thesis
    using useLocalStorage_untouched [OF untouched, of sample_host "Bool False"] stored accepted other
    by auto
qed

text \<open>
  The claim C1 as written fails: on an empty storage the first render of
  \<^verbatim>\<open>useLocalStorage("isAuthed", false)\<close>, the call AuthProvider makes, leaves the entry
  \<^verbatim>\<open>"false"\<close> under the key that had none.
\<close>

theorem useLocalStorage_untouched_counterexample:
  "getItem [] ''isAuthed'' = None
   \<and> useLocalStorage sample_host [] ''isAuthed'' (Bool False)
       = Inr (Bool False, [(''isAuthed'', ''false'')])
   \<and> getItem [(''isAuthed'', ''false'')] ''isAuthed'' = Some ''false''"
  by (simp add: useLocalStorage_def useLocalStorage_init_def useLocalStorage_effect_def
      setItem_def getItem_def sample_host_def sample_stringify_def String_of_def)

text \<open>
  A stored string that is not JSON, in the hook and in \<open>getPosts\<close>: the hook lets the
  SyntaxError through, for every host, key and default; \<open>getPosts\<close> catches it and falls
  back to its defaults, which it also saves.
\<close>

lemma useLocalStorage_init_corrupt:
  assumes "getItem st k = Some raw" and "raw \<noteq> []" and "JSON_parse h raw = None"
  shows "useLocalStorage_init h st k d = Inl SyntaxError"
    and "useLocalStorage h st k d = Inl SyntaxError"
  using assms by (simp_all add: useLocalStorage_def useLocalStorage_init_def)

lemma getPosts_corrupt:
  assumes "getItem st ''posts'' = Some raw" and "raw \<noteq> []" and "JSON_parse h raw = None"
  shows "getPosts h st n
         = (fst (makeDefaults h n), savePosts h st (fst (makeDefaults h n)), n + 3)"
  using assms by (simp add: getPosts_def getPosts_try_def makeDefaults_def Let_def)

text \<open>
  C2. A stored string that is not JSON makes the hook throw: the SyntaxError of
  \<^verbatim>\<open>JSON.parse\<close> leaves the initialiser uncaught, so the claim fails on the code. Here
  the storage holds \<^verbatim>\<open>"{"\<close> under \<^verbatim>\<open>"isAuthed"\<close> and AuthProvider renders.
\<close>

theorem useLocalStorage_corrupt_throws:
  "useLocalStorage_init sample_host [(''isAuthed'', ''{'')] ''isAuthed'' (Bool False)
     = Inl SyntaxError"
  by (simp add: useLocalStorage_init_def getItem_def sample_host_def sample_parse_def)

section \<open>The authentication gate\<close>

text \<open>
  C7. With a user name and a password that are not blank, a login against no stored
  account and a login against a stored account that does not match fail alike: the same
  result object, message included, and the state as it was.
\<close>

theorem login_hides_account_existence:
  assumes "trim un \<noteq> []" and "trim pw \<noteq> []"
    and "\<not> truthy (storedAccount s0)"
    and "truthy (storedAccount s1)"
    and "get_prop (storedAccount s1) ''username'' \<noteq> Inr (Str (trim un))
         \<or> get_prop (storedAccount s1) ''password'' \<noteq> Inr (Str (trim pw))"
  shows "login s0 un pw = (failure ''Incorrect username or password'', s0)
       \<and> login s1 un pw = (failure ''Incorrect username or password'', s1)
       \<and> fst (login s0 un pw) = fst (login s1 un pw)
       \<and> \<not> ok (fst (login s0 un pw))"
proof -
  have a: "login s0 un pw = (failure ''Incorrect username or password'', s0)"
    using assms(1-3) by (cases "storedAccount s0") (simp_all add: login_def login_try_def Let_def)
  have "get_prop (storedAccount s1) ''username'' \<noteq> Inl e" for e
    using assms(4) by (rule truthy_get_prop)
  moreover have "get_prop (storedAccount s1) ''password'' \<noteq> Inl e" for e
    using assms(4) by (rule truthy_get_prop)
  ultimately have b: "login s1 un pw = (failure ''Incorrect username or password'', s1)"
    using assms(1,2,4,5)
    by (cases "storedAccount s1")
       (auto simp add: login_def login_try_def Let_def strict_eq_str_def
          split: sum.splits bool.splits)
  show ?thesis using a b by (simp add: failure_def)
qed

theorem login_hides_account_existence_witness:
  "login \<lparr>isAuthed = Bool False, storedAccount = Null\<rparr> ''alice'' ''wrong''
     = (failure ''Incorrect username or password'', \<lparr>isAuthed = Bool False, storedAccount = Null\<rparr>)
   \<and> login \<lparr>isAuthed = Bool False,
             storedAccount = Obj [(''username'', Str ''alice''), (''password'', Str ''secret'')]\<rparr>
        ''alice'' ''wrong''
     = (failure ''Incorrect username or password'',
        \<lparr>isAuthed = Bool False,
         storedAccount = Obj [(''username'', Str ''alice''), (''password'', Str ''secret'')]\<rparr>)"
proof -
  have u: "trim ''alice'' \<noteq> []" and p: "trim ''wrong'' \<noteq> []"
    by (simp_all add: trim_def is_ws_def)
  show ?thesis
    using login_hides_account_existence [OF u p,
        of "\<lparr>isAuthed = Bool False, storedAccount = Null\<rparr>"
           "\<lparr>isAuthed = Bool False,
             storedAccount = Obj [(''username'', Str ''alice''), (''password'', Str ''secret'')]\<rparr>"]
    by (simp add: trim_def is_ws_def field_def)
qed

text \<open>
  C3, as amended. With an account stored under the name \<open>au\<close>, creating an account is
  refused, the state untouched, exactly when the trimmed name equals \<open>au\<close>; under any
  other name it succeeds, puts the new account in the single slot and opens the session.
\<close>

theorem createAccount_single_slot:
  assumes "trim un \<noteq> []" and "trim pw \<noteq> []"
    and "truthy (storedAccount s)"
    and "get_prop (storedAccount s) ''username'' = Inr (Str au)"
  shows "(trim un = au \<longrightarrow> createAccount s un pw = (failure ''Account already exists'', s))
       \<and> (trim un \<noteq> au \<longrightarrow>
            createAccount s un pw =
              (\<lparr>ok = True, created = Some True, error = None\<rparr>,
               s\<lparr>storedAccount := Obj [(''username'', Str (trim un)), (''password'', Str (trim pw))],
                 isAuthed := Bool True\<rparr>))"
  using assms
  by (auto simp add: createAccount_def createAccount_try_def Let_def strict_eq_str_def)

theorem createAccount_single_slot_witness:
  "createAccount
     \<lparr>isAuthed = Bool False,
      storedAccount = Obj [(''username'', Str ''alice''), (''password'', Str ''secret'')]\<rparr>
     '' alice '' ''other''
   = (failure ''Account already exists'',
      \<lparr>isAuthed = Bool False,
       storedAccount = Obj [(''username'', Str ''alice''), (''password'', Str ''secret'')]\<rparr>)"
proof -
  have u: "trim '' alice '' \<noteq> []" and p: "trim ''other'' \<noteq> []"
    by (simp_all add: trim_def is_ws_def)
  show ?thesis
    using createAccount_single_slot [OF u p,
        of "\<lparr>isAuthed = Bool False,
             storedAccount = Obj [(''username'', Str ''alice''), (''password'', Str ''secret'')]\<rparr>"
           "''alice''"]
    by (simp add: trim_def is_ws_def field_def)
qed

text \<open>
  The claim C3 as written fails: with the account alice stored, creating the account
  bob succeeds and replaces it.
\<close>

theorem createAccount_second_name_counterexample:
  "createAccount
     \<lparr>isAuthed = Bool False,
      storedAccount = Obj [(''username'', Str ''alice''), (''password'', Str ''secret'')]\<rparr>
     ''bob'' ''hunter2''
   = (\<lparr>ok = True, created = Some True, error = None\<rparr>,
      \<lparr>isAuthed = Bool True,
       storedAccount = Obj [(''username'', Str ''bob''), (''password'', Str ''hunter2'')]\<rparr>)"
  by (simp add: createAccount_def createAccount_try_def Let_def strict_eq_str_def trim_def
      is_ws_def field_def)

section \<open>Saving the posts\<close>

text \<open>
  C8. \<open>savePosts\<close> with no posts removes the entry of its key \<^verbatim>\<open>"posts"\<close>; with posts,
  their JSON text is what the key holds afterwards, provided the storage accepts the
  write. No other key changes.
\<close>

theorem savePosts_empty_removes_key:
  "(posts = [] \<longrightarrow> getItem (savePosts h st posts) ''posts'' = None)
   \<and> (posts \<noteq> [] \<and> JSON_stringify h (Arr (map Obj posts)) = Some txt
        \<and> quota_ok h st ''posts'' txt \<longrightarrow>
        getItem (savePosts h st posts) ''posts'' = Some txt)
   \<and> (\<forall>k. k \<noteq> ''posts'' \<longrightarrow> getItem (savePosts h st posts) k = getItem st k)"
  by (auto simp add: savePosts_def removeItem_def setItem_def getItem_update getItem_delete
      String_of_def)

theorem savePosts_empty_removes_key_witness:
  \<open>getItem (savePosts sample_host [(''posts'', ''[]'')] []) ''posts'' = None
   \<and> getItem (savePosts sample_host [(''posts'', ''[]'')]
                [[(''id'', Str ''a1''), (''title'', Str ''Kept'')]]) ''posts''
       = Some ''[{"id":"a1","title":"Kept"}]''
   \<and> getItem (savePosts sample_host [(''posts'', ''[]''), (''isAuthed'', ''false'')] [])
        ''isAuthed'' = Some ''false''\<close>
  using savePosts_empty_removes_key [of "[]" sample_host "[(''posts'', ''[]'')]" "[]"]
    savePosts_empty_removes_key
      [of "[[(''id'', Str ''a1''), (''title'', Str ''Kept'')]]" sample_host "[(''posts'', ''[]'')]"
          \<open>''[{"id":"a1","title":"Kept"}]''\<close>]
    savePosts_empty_removes_key
      [of "[]" sample_host "[(''posts'', ''[]''), (''isAuthed'', ''false'')]" "[]"]
  by (simp add: sample_host_def sample_stringify_def getItem_def)

section \<open>The derived list\<close>

subsection \<open>The sort is a stable sort by key\<close>

lemma insert_by_key: "insert_by (\<lambda>a b. (k a :: int) - k b) = insort_key k"
proof (intro ext)
  fix x ys
  show "insert_by (\<lambda>a b. k a - k b) x ys = insort_key k x ys"
    by (induction ys) auto
qed

lemma insert_by_key_desc: "insert_by (\<lambda>a b. (k b :: int) - k a) = insort_key (\<lambda>x. - k x)"
proof (intro ext)
  fix x ys
  show "insert_by (\<lambda>a b. k b - k a) x ys = insort_key (\<lambda>x. - k x) x ys"
    by (induction ys) auto
qed

lemma Array_sort_key: "Array_sort (\<lambda>a b. (k a :: int) - k b) xs = sort_key k xs"
  by (simp add: Array_sort_def sort_key_def insert_by_key)

lemma Array_sort_key_desc:
  "Array_sort (\<lambda>a b. (k b :: int) - k a) xs = sort_key (\<lambda>x. - k x) xs"
  by (simp add: Array_sort_def sort_key_def insert_by_key_desc)

lemma sorted_wrt_sort_key_asc: "sorted_wrt (\<lambda>a b. (k a :: int) \<le> k b) (sort_key k xs)"
  using sorted_sort_key [of k xs] by (simp add: sorted_map)

subsection \<open>What the two filters keep\<close>

lemma filter_exn_Inr:
  "filter_exn f xs = Inr ys \<Longrightarrow> ys = filter (\<lambda>x. f x = Inr True) xs"
  by (induction xs arbitrary: ys) (auto split: sum.splits if_splits)

lemma filter_exn_total:
  "list_all (\<lambda>x. f x = Inr (P x)) xs \<Longrightarrow> filter_exn f xs = Inr (filter P xs)"
  by (induction xs) auto

lemma has_tags_Nil: "has_tags [] p"
  by (simp add: has_tags_def)

lemma has_tags_superset: "has_tags sel p \<longleftrightarrow> Str ` set sel \<subseteq> tag_set p"
  by (auto simp add: has_tags_def tag_set_def list_all_iff)

lemma filtered_Inr:
  assumes "filtered h posts search sel so = Inr out"
  shows "mset out
         = mset (filter (\<lambda>p. kept_by_search (toLowerCase (trim search)) p \<and> has_tags sel p) posts)"
    and "sorted_wrt (time_order h so) out"
proof -
  let ?needle = "toLowerCase (trim search)"
  obtain mid
    where mid: "(if ?needle = [] then Inr posts else filter_exn (search_hit ?needle) posts) = Inr mid"
      and out: "out = Array_sort
                        (\<lambda>a b. if so = ''newest'' then getTime h b - getTime h a
                               else getTime h a - getTime h b)
                        (if sel \<noteq> [] then filter (has_tags sel) mid else mid)"
    using assms by (auto simp add: filtered_def Let_def split: sum.splits)
  have mid_eq: "mid = filter (kept_by_search ?needle) posts"
    using mid filter_exn_Inr [of "search_hit ?needle" posts mid]
    by (auto simp add: kept_by_search_def [abs_def] split: if_splits)
  have tg: "(if sel \<noteq> [] then filter (has_tags sel) mid else mid) = filter (has_tags sel) mid"
    by (simp add: has_tags_Nil)
  have out_eq:
    "out = (if so = ''newest'' then sort_key (\<lambda>p. - getTime h p) (filter (has_tags sel) mid)
            else sort_key (getTime h) (filter (has_tags sel) mid))"
    unfolding out tg by (simp add: Array_sort_key Array_sort_key_desc)
  show "mset out = mset (filter (\<lambda>p. kept_by_search ?needle p \<and> has_tags sel p) posts)"
    by (simp add: out_eq mid_eq conj_commute)
  show "sorted_wrt (time_order h so) out"
  proof (cases "so = ''newest''")
    case True
    have "sorted_wrt (\<lambda>a b. - getTime h a \<le> - getTime h b) out"
      using True sorted_wrt_sort_key_asc [of "\<lambda>p. - getTime h p"] by (simp add: out_eq)
    then show ?thesis using True by (simp add: time_order_def [abs_def])
  next
    case False
    then show ?thesis using sorted_wrt_sort_key_asc [of "getTime h"]
      by (simp add: out_eq time_order_def [abs_def])
  qed
qed

lemma filtered_no_search:
  assumes "toLowerCase (trim search) = []"
  shows "\<exists>out. filtered h posts search sel so = Inr out"
  using assms by (simp add: filtered_def Let_def)

lemma filtered_total:
  assumes "list_all (\<lambda>p. search_hit (toLowerCase (trim search)) p = Inr (P p)) posts"
  shows "\<exists>out. filtered h posts search sel so = Inr out"
  using filter_exn_total [OF assms] by (simp add: filtered_def Let_def)

subsection \<open>The search callback on posts of the documented shape\<close>

lemma str_includes_sublist: "str_includes s n \<longleftrightarrow> sublist n s"
  by (induction s) (simp_all add: sublist_Cons_right)

lemma js_or_text:
  "opt_text a \<Longrightarrow> js_or a b = (if text_of a = [] then b else Str (text_of a))"
  by (cases a) (simp_all add: js_or_def opt_text_def)

lemma js_or_Str: "js_or (Str s) b = (if s = [] then b else Str s)"
  by (simp add: js_or_def)

lemma toLowerCase_or_empty:
  "opt_text v \<Longrightarrow> toLowerCase_of (js_or v (Str [])) = Inr (toLowerCase (text_of v))"
  by (simp add: js_or_text toLowerCase_def)

lemma falsy_text_of: "\<not> truthy v \<Longrightarrow> text_of v = []"
  by (cases v) simp_all

lemma truthy_opt_text: "truthy v \<Longrightarrow> opt_text v \<Longrightarrow> v = Str (text_of v) \<and> text_of v \<noteq> []"
  by (cases v) (simp_all add: opt_text_def)

lemma first_non_empty:
  assumes "opt_text (js_or (js_or a b) c)"
  shows "js_or (js_or (js_or a b) c) (Str [])
         = Str (case filter (\<lambda>s. s \<noteq> []) [text_of a, text_of b, text_of c] of
                  [] \<Rightarrow> [] | s # rest \<Rightarrow> s)"
proof (cases "truthy a")
  case True
  then have "opt_text a" using assms by (simp add: js_or_def)
  then show ?thesis using True truthy_opt_text [of a] by (simp add: js_or_def)
next
  case a: False
  show ?thesis
  proof (cases "truthy b")
    case True
    then have "opt_text b" using assms a by (simp add: js_or_def)
    then show ?thesis using a True truthy_opt_text [of b] by (simp add: js_or_def falsy_text_of)
  next
    case b: False
    have c: "opt_text c" using assms a b by (simp add: js_or_def)
    have "js_or (js_or (js_or a b) c) (Str []) = js_or c (Str [])"
      using a b by (simp add: js_or_def)
    also have "\<dots> = (if text_of c = [] then Str [] else Str (text_of c))"
      by (rule js_or_text [OF c])
    finally show ?thesis using a b by (simp add: falsy_text_of)
  qed
qed

lemma content_chain:
  assumes "opt_text (js_or (js_or (field p ''content'') (field p ''body'')) (field p ''excerpt''))"
  shows "js_or (js_or (js_or (field p ''content'') (field p ''body'')) (field p ''excerpt''))
           (Str [])
         = Str (primary_content p)"
  unfolding first_non_empty [OF assms] primary_content_def by simp

lemma tags_lowered:
  "list_all opt_text ts \<Longrightarrow>
   map_exn (\<lambda>t. toLowerCase_of (js_or t (Str []))) ts
   = Inr (map (\<lambda>t. toLowerCase (text_of t)) ts)"
  by (induction ts) (simp_all add: toLowerCase_or_empty)

lemma search_hit_well_typed:
  assumes "well_typed p"
  shows "search_hit needle p = Inr (search_spec needle p)"
proof -
  have t: "toLowerCase_of (js_or (field p ''title'') (Str []))
           = Inr (toLowerCase (text_of (field p ''title'')))"
    using assms by (simp add: well_typed_def toLowerCase_or_empty)
  have c: "toLowerCase_of
             (js_or (js_or (js_or (field p ''content'') (field p ''body'')) (field p ''excerpt''))
                (Str []))
           = Inr (toLowerCase (primary_content p))"
    using assms by (simp add: well_typed_def content_chain)
  have g: "map_exn (\<lambda>t. toLowerCase_of (js_or t (Str []))) (array_or_empty (field p ''tags''))
           = Inr (map (\<lambda>t. toLowerCase (text_of t)) (array_or_empty (field p ''tags'')))"
    using assms by (simp add: well_typed_def tags_lowered)
  show ?thesis
    unfolding search_hit_def t c g
    by (simp add: search_spec_def str_includes_sublist list_ex_iff)
qed

text \<open>
  Outside that shape the callback throws: a truthy value that is not a string has no
  \<^verbatim>\<open>toLowerCase\<close>. So \<open>well_typed\<close> is exactly the condition under which the callback
  returns, and one post outside it makes the whole search throw.
\<close>

lemma not_opt_text_throws: "\<not> opt_text v \<Longrightarrow> toLowerCase_of (js_or v (Str [])) = Inl TypeError"
  by (cases v) (simp_all add: opt_text_def js_or_def)

lemma tags_throw:
  "\<not> list_all opt_text ts \<Longrightarrow>
   map_exn (\<lambda>t. toLowerCase_of (js_or t (Str []))) ts = Inl TypeError"
proof (induction ts)
  case Nil
  then show ?case by simp
next
  case (Cons t ts)
  show ?case
  proof (cases "opt_text t")
    case True
    then show ?thesis using Cons by (simp add: toLowerCase_or_empty)
  next
    case False
    then show ?thesis by (simp add: not_opt_text_throws)
  qed
qed

lemma search_hit_ill_typed:
  assumes "\<not> well_typed p"
  shows "search_hit needle p = Inl TypeError"
proof (cases "opt_text (field p ''title'')")
  case False
  then show ?thesis by (simp add: search_hit_def not_opt_text_throws)
next
  case title: True
  show ?thesis
  proof (cases "opt_text (js_or (js_or (field p ''content'') (field p ''body'')) (field p ''excerpt''))")
    case False
    then show ?thesis
      using title by (simp add: search_hit_def toLowerCase_or_empty not_opt_text_throws)
  next
    case True
    then have "\<not> list_all opt_text (array_or_empty (field p ''tags''))"
      using assms title by (simp add: well_typed_def)
    then show ?thesis
      using title True by (simp add: search_hit_def toLowerCase_or_empty tags_throw)
  qed
qed

lemma filter_exn_throws:
  assumes "\<And>x. Q x \<Longrightarrow> f x = Inr (P x)" and "\<And>x. \<not> Q x \<Longrightarrow> f x = Inl e"
  shows "\<not> list_all Q xs \<Longrightarrow> filter_exn f xs = Inl e"
proof (induction xs)
  case Nil
  then show ?case by simp
next
  case (Cons x xs)
  show ?case
  proof (cases "Q x")
    case True
    then show ?thesis using Cons assms(1) [OF True] by simp
  next
    case False
    then show ?thesis using assms(2) [OF False] by simp
  qed
qed

lemma filtered_throws_outside_shape:
  assumes "toLowerCase (trim search) \<noteq> []" and "\<not> list_all well_typed posts"
  shows "filtered h posts search sel so = Inl TypeError"
proof -
  let ?needle = "toLowerCase (trim search)"
  have "filter_exn (search_hit ?needle) posts = Inl TypeError"
  proof (rule filter_exn_throws [where Q = well_typed and P = "search_spec ?needle"])
    show "search_hit ?needle p = Inr (search_spec ?needle p)" if "well_typed p" for p
      using that by (rule search_hit_well_typed)
    show "search_hit ?needle p = Inl TypeError" if "\<not> well_typed p" for p
      using that by (rule search_hit_ill_typed)
    show "\<not> list_all well_typed posts" by (rule assms(2))
  qed
  then show ?thesis using assms(1) by (simp add: filtered_def Let_def)
qed

subsection \<open>The examples, evaluated\<close>

lemma needle_dog: "toLowerCase (trim ''Dog '') = ''dog''"
  by code_simp

lemma needle_blank: "toLowerCase (trim '' '') = []"
  by code_simp

lemma cats_dogs_typed: "list_all well_typed [cats, dogs]"
  by code_simp

lemma spec_keeps_dogs: "filter (search_spec ''dog'') [cats, dogs] = [dogs]"
  by code_simp

lemma both_tags_keep_dogs:
  "filter (\<lambda>p. Str ` set [''pets'', ''fun''] \<subseteq> tag_set p) [cats, dogs] = [dogs]"
  by code_simp

lemma numeric_loaded:
  "getPosts sample_host [(''posts'', numeric_text)] 0
   = ([numeric_post], [(''posts'', numeric_text)], 0)"
  by code_simp

lemma numeric_throws: "filtered sample_host [numeric_post] ''dog'' [] ''newest'' = Inl TypeError"
  by code_simp

lemma filtered_dog: "filtered sample_host [cats, dogs] ''Dog '' [] ''newest'' = Inr [dogs]"
  by code_simp

lemma filtered_stale_early:
  "filtered sample_host [stale, early] '''' [] ''newest'' = Inr [early, stale]"
  by code_simp

lemma spec_time_stale: "spec_time sample_host stale = 1577836800000"
  by code_simp

lemma getTime_stale: "getTime sample_host stale = 0"
  by code_simp

lemma getTime_early: "getTime sample_host early = 86400000"
  by code_simp

subsection \<open>The claims about the derived list\<close>

text \<open>
  C10. Whatever the search text, the selected tags and the sort order, a list that
  \<open>filtered\<close> returns is a sub-multiset of the posts: every element is one of the posts,
  unchanged, and none occurs more often than it did. The function filters and reorders.
\<close>

theorem filtered_only_filters_and_reorders:
  assumes "filtered h posts search sel so = Inr out"
  shows "mset out \<subseteq># mset posts"
  using filtered_Inr(1) [OF assms] by simp

theorem filtered_only_filters_and_reorders_witness:
  "filtered sample_host [cats, dogs] ''Dog '' [] ''newest'' = Inr [dogs]
   \<and> mset [dogs] \<subseteq># mset [cats, dogs]"
  using filtered_only_filters_and_reorders [OF filtered_dog] filtered_dog by simp

text \<open>
  C4, as amended. A numeric \<^verbatim>\<open>createdAt\<close> is the key. Otherwise one value is parsed:
  the first truthy one of \<^verbatim>\<open>date\<close>, \<^verbatim>\<open>publishedAt\<close>, \<^verbatim>\<open>createdAt\<close> (the last when none is
  truthy), and the key is 0 when that value does not parse; no later field is tried. The
  list \<open>filtered\<close> returns is descending by this key for \<^verbatim>\<open>"newest"\<close>, ascending otherwise.
\<close>

theorem getTime_first_truthy:
  "getTime h p =
     (if is_Num (field p ''createdAt'') then the_Num (field p ''createdAt'')
      else parsed_or_epoch h (date_candidate p))
   \<and> (\<forall>out. filtered h posts search sel so = Inr out \<longrightarrow> sorted_wrt (time_order h so) out)"
proof -
  have "getTime h p =
     (if is_Num (field p ''createdAt'') then the_Num (field p ''createdAt'')
      else parsed_or_epoch h (date_candidate p))"
    by (simp add: getTime_def parsed_or_epoch_def date_candidate_def js_or_def)
  moreover have "sorted_wrt (time_order h so) out"
    if "filtered h posts search sel so = Inr out" for out
    using filtered_Inr(2) [OF that] .
  ultimately show ?thesis by blast
qed

theorem getTime_first_truthy_witness:
  "getTime sample_host stale = parsed_or_epoch sample_host (Str ''not a date'')
   \<and> sorted_wrt (time_order sample_host ''newest'') [early, stale]"
proof -
  have "date_candidate stale = Str ''not a date''"
    by (simp add: date_candidate_def stale_def field_def)
  moreover have "\<not> is_Num (field stale ''createdAt'')"
    by (simp add: stale_def field_def)
  ultimately show ?thesis
    using getTime_first_truthy [of sample_host stale "[stale, early]" "[]" "[]" "''newest''"]
      filtered_stale_early
    by simp
qed

text \<open>
  The claim C4 as written fails. The post \<open>stale\<close> has a \<^verbatim>\<open>date\<close> that does not parse and a
  \<^verbatim>\<open>publishedAt\<close> that does: the key of the claim is the time of \<^verbatim>\<open>publishedAt\<close>, the key
  of the code is 0, and under \<^verbatim>\<open>"newest"\<close> the code lists \<open>stale\<close> after a post of 1970.
\<close>

theorem getTime_first_parsing_counterexample:
  "spec_time sample_host stale = 1577836800000
   \<and> getTime sample_host stale = 0
   \<and> getTime sample_host early = 86400000
   \<and> filtered sample_host [stale, early] '''' [] ''newest'' = Inr [early, stale]"
  by (simp add: spec_time_stale getTime_stale getTime_early filtered_stale_early)

text \<open>
  C5, as amended. With a search text that is not blank and posts that are \<open>well_typed\<close>
  (the title, the first truthy one of \<^verbatim>\<open>content\<close>, \<^verbatim>\<open>body\<close>, \<^verbatim>\<open>excerpt\<close>, and each element
  of a \<^verbatim>\<open>tags\<close> array are strings or falsy), \<open>filtered\<close> does not throw and keeps exactly the
  posts that match: the needle (the search text, trimmed and case-folded) is a substring of
  the case-folded title, of the case-folded primary content or of a case-folded tag. A
  selected tag list narrows the result further; with none selected the matches are all
  that is kept.
\<close>

theorem search_keeps_exactly_the_matches:
  assumes "toLowerCase (trim search) \<noteq> []" and "list_all well_typed posts"
  shows "(\<exists>out. filtered h posts search sel so = Inr out
            \<and> mset out = mset (filter (\<lambda>p. search_spec (toLowerCase (trim search)) p
                                           \<and> has_tags sel p) posts))
       \<and> (\<exists>out. filtered h posts search [] so = Inr out
            \<and> mset out = mset (filter (search_spec (toLowerCase (trim search))) posts))"
proof -
  let ?needle = "toLowerCase (trim search)"
  have hit: "list_all (\<lambda>p. search_hit ?needle p = Inr (search_spec ?needle p)) posts"
    using assms(2) by (simp add: list_all_iff search_hit_well_typed)
  have kept: "kept_by_search ?needle p \<longleftrightarrow> search_spec ?needle p" if "p \<in> set posts" for p
    using that assms by (simp add: kept_by_search_def list_all_iff search_hit_well_typed)
  have gen: "\<exists>out. filtered h posts search tags so = Inr out
            \<and> mset out = mset (filter (\<lambda>p. search_spec ?needle p \<and> has_tags tags p) posts)"
    for tags
  proof -
    obtain out where out: "filtered h posts search tags so = Inr out"
      using filtered_total [OF hit] by blast
    have "filter (\<lambda>p. kept_by_search ?needle p \<and> has_tags tags p) posts
          = filter (\<lambda>p. search_spec ?needle p \<and> has_tags tags p) posts"
      by (rule filter_cong) (simp_all add: kept)
    then show ?thesis using filtered_Inr(1) [OF out] out by simp
  qed
  show ?thesis using gen [of sel] gen [of "[]"] by (simp add: has_tags_Nil)
qed

theorem search_keeps_exactly_the_matches_witness:
  "\<exists>out. filtered sample_host [cats, dogs] ''Dog '' [] ''oldest'' = Inr out \<and> out = [dogs]"
proof -
  have needle: "toLowerCase (trim ''Dog '') \<noteq> []"
    by (simp add: needle_dog)
  from search_keeps_exactly_the_matches
    [OF needle cats_dogs_typed, of sample_host "[]" "''oldest''"]
  obtain out where run: "filtered sample_host [cats, dogs] ''Dog '' [] ''oldest'' = Inr out"
    and kept: "mset out = mset (filter (search_spec (toLowerCase (trim ''Dog ''))) [cats, dogs])"
    by blast
  have "mset out = mset [dogs]"
    using kept unfolding needle_dog spec_keeps_dogs .
  then have "out = [dogs]" by simp
  with run show ?thesis by blast
qed

text \<open>
  The claim C5 as written fails. The storage holds a post whose title is the number 5;
  \<open>getPosts\<close> loads it as it is, and the search for \<^verbatim>\<open>"dog"\<close> then throws a TypeError where
  the claim has the post left out without an error.
\<close>

theorem search_numeric_title_counterexample:
  "getPosts sample_host [(''posts'', numeric_text)] 0
     = ([numeric_post], [(''posts'', numeric_text)], 0)
   \<and> filtered sample_host [numeric_post] ''dog'' [] ''newest'' = Inl TypeError"
  by (simp add: numeric_loaded numeric_throws)

text \<open>
  C6. With tags selected, \<open>filtered\<close> keeps exactly the posts whose tag set contains every
  selected tag: outright when the search text is blank, among the posts the search keeps
  otherwise. A post whose \<^verbatim>\<open>tags\<close> is missing or not an array has the empty tag set and
  is never kept.
\<close>

theorem tag_filter_keeps_supersets:
  assumes "sel \<noteq> []"
  shows "(toLowerCase (trim search) = [] \<longrightarrow>
           (\<exists>out. filtered h posts search sel so = Inr out
              \<and> mset out = mset (filter (\<lambda>p. Str ` set sel \<subseteq> tag_set p) posts)))
       \<and> (\<forall>out. filtered h posts search sel so = Inr out \<longrightarrow>
             mset out = mset (filter (\<lambda>p. kept_by_search (toLowerCase (trim search)) p
                                          \<and> Str ` set sel \<subseteq> tag_set p) posts))
       \<and> (\<forall>out p. filtered h posts search sel so = Inr out \<and> \<not> is_Arr (field p ''tags'') \<longrightarrow>
             tag_set p = {} \<and> p \<notin> set out)"
proof -
  have all: "mset out = mset (filter (\<lambda>p. kept_by_search (toLowerCase (trim search)) p
                                          \<and> Str ` set sel \<subseteq> tag_set p) posts)"
    if "filtered h posts search sel so = Inr out" for out
    using filtered_Inr(1) [OF that] by (simp add: has_tags_superset)
  have none: "tag_set p = {} \<and> p \<notin> set out"
    if "filtered h posts search sel so = Inr out" and "\<not> is_Arr (field p ''tags'')" for out p
  proof -
    have "tag_set p = {}" using that(2) by (simp add: tag_set_def array_or_empty_def)
    moreover have "\<not> Str ` set sel \<subseteq> tag_set p" using assms \<open>tag_set p = {}\<close> by simp
    moreover have "set out = {p \<in> set posts. kept_by_search (toLowerCase (trim search)) p
                                          \<and> Str ` set sel \<subseteq> tag_set p}"
      using all [OF that(1)] by (metis set_filter set_mset_mset)
    ultimately show ?thesis by simp
  qed
  have first: "\<exists>out. filtered h posts search sel so = Inr out
              \<and> mset out = mset (filter (\<lambda>p. Str ` set sel \<subseteq> tag_set p) posts)"
    if blank: "toLowerCase (trim search) = []"
  proof -
    obtain out where out: "filtered h posts search sel so = Inr out"
      using filtered_no_search [OF blank] by blast
    show ?thesis using all [OF out] out blank by (simp add: kept_by_search_def)
  qed
  show ?thesis using all none first by blast
qed

theorem tag_filter_keeps_supersets_witness:
  "\<exists>out. filtered sample_host [cats, dogs] '' '' [''pets'', ''fun''] ''newest'' = Inr out
      \<and> out = [dogs]"
proof -
  have sel: "[''pets'', ''fun''] \<noteq> []" by simp
  from tag_filter_keeps_supersets [OF sel, of "'' ''" sample_host "[cats, dogs]" "''newest''"]
    needle_blank
  obtain out
    where run: "filtered sample_host [cats, dogs] '' '' [''pets'', ''fun''] ''newest'' = Inr out"
      and kept: "mset out
                 = mset (filter (\<lambda>p. Str ` set [''pets'', ''fun''] \<subseteq> tag_set p) [cats, dogs])"
    by blast
  have "mset out = mset [dogs]"
    using kept unfolding both_tags_keep_dogs .
  then have "out = [dogs]" by simp
  with run show ?thesis by blast
qed

section \<open>Loading the posts\<close>

subsection \<open>The sample identifiers are distinct\<close>

lemma nat_of_digit_string: "nat_of_digits (digit_string n) = n"
proof (induction n rule: digit_string.induct)
  case (1 n)
  show ?case
  proof (cases "n < 10")
    case True
    then show ?thesis by (subst digit_string.simps) (simp add: nat_of_digits_def)
  next
    case False
    have "nat_of_digits (digit_string n) = 10 * nat_of_digits (digit_string (n div 10)) + n mod 10"
      using False by (subst digit_string.simps) (simp add: nat_of_digits_def)
    then show ?thesis using 1 False by simp
  qed
qed

lemma inj_digit_string: "inj digit_string"
  by (rule inj_on_inverseI [where g = nat_of_digits]) (rule nat_of_digit_string)

lemma inj_sample_uuid: "inj sample_uuid"
  using inj_digit_string by (auto simp add: inj_def sample_uuid_def)

subsection \<open>Assigning identifiers to stored objects\<close>

lemma missing_before_0: "missing_before vs 0 = 0"
  by (simp add: missing_before_def)

lemma missing_before_Suc:
  "missing_before (v # vs) (Suc i) = (if lacks_id v then 1 else 0) + missing_before vs i"
  by (simp add: missing_before_def)

lemma assign_ids_objects:
  "list_all is_Obj vs \<Longrightarrow>
   \<exists>ps. assign_ids h vs n = (Inr ps, n + length (filter lacks_id vs))
      \<and> length ps = length vs
      \<and> (\<forall>i<length vs.
            ps ! i = AList.update ''id''
                       (if lacks_id (vs ! i) then Str (randomUUID h (n + missing_before vs i))
                        else field (props (vs ! i)) ''id'')
                       (props (vs ! i)))"
proof (induction vs arbitrary: n)
  case Nil
  then show ?case by simp
next
  case (Cons v vs)
  then obtain fs where v: "v = Obj fs" by (cases v) simp_all
  let ?n' = "if lacks_id v then Suc n else n"
  have "list_all is_Obj vs" using Cons.prems by simp
  from Cons.IH [OF this, of ?n'] obtain qs where qs: "assign_ids h vs ?n' = (Inr qs, ?n' + length (filter lacks_id vs))"
    and len: "length qs = length vs"
    and at: "\<forall>i<length vs.
            qs ! i = AList.update ''id''
                       (if lacks_id (vs ! i) then Str (randomUUID h (?n' + missing_before vs i))
                        else field (props (vs ! i)) ''id'')
                       (props (vs ! i))"
    by blast
  let ?idv = "if lacks_id v then Str (randomUUID h n) else field fs ''id''"
  have run: "assign_ids h (v # vs) n
             = (Inr (AList.update ''id'' ?idv fs # qs), n + length (filter lacks_id (v # vs)))"
  proof (cases "lacks_id v")
    case True
    then show ?thesis using qs by (simp add: v lacks_id_def)
  next
    case False
    then show ?thesis using qs by (simp add: v lacks_id_def)
  qed
  have "(AList.update ''id'' ?idv fs # qs) ! i
        = AList.update ''id''
            (if lacks_id ((v # vs) ! i) then Str (randomUUID h (n + missing_before (v # vs) i))
             else field (props ((v # vs) ! i)) ''id'')
            (props ((v # vs) ! i))" if "i < length (v # vs)" for i
  proof (cases i)
    case 0
    then show ?thesis by (simp add: v missing_before_0)
  next
    case (Suc j)
    then have "j < length vs" using that by simp
    then show ?thesis using at Suc by (simp add: missing_before_Suc)
  qed
  then show ?case using run len by simp
qed


lemma missing_before_step:
  "i < length vs \<Longrightarrow>
   missing_before vs (Suc i) = missing_before vs i + (if lacks_id (vs ! i) then 1 else 0)"
  by (simp add: missing_before_def take_Suc_conv_app_nth)

lemma missing_before_mono: "i \<le> j \<Longrightarrow> missing_before vs i \<le> missing_before vs j"
proof (induction j)
  case 0
  then show ?case by simp
next
  case (Suc j)
  show ?case
  proof (cases "i = Suc j")
    case True
    then show ?thesis by simp
  next
    case False
    then have le: "missing_before vs i \<le> missing_before vs j" using Suc by simp
    show ?thesis
    proof (cases "j < length vs")
      case True
      then show ?thesis using le by (simp add: missing_before_step)
    next
      case False
      then show ?thesis using le by (simp add: missing_before_def)
    qed
  qed
qed

lemma missing_before_strict:
  assumes "i < j" and "i < length vs" and "lacks_id (vs ! i)"
  shows "missing_before vs i < missing_before vs j"
proof -
  have "missing_before vs i < missing_before vs (Suc i)"
    using assms(2,3) by (simp add: missing_before_step)
  also have "\<dots> \<le> missing_before vs j"
    using assms(1) by (intro missing_before_mono) simp
  finally show ?thesis .
qed

lemma field_update: "field (AList.update k v fs) k' = (if k' = k then v else field fs k')"
  by (simp add: field_def update_conv')

subsection \<open>The stored example\<close>

lemma sample_uuid_nonempty: "sample_uuid k \<noteq> []"
  by (simp add: sample_uuid_def)

lemma sample_uuid_0: "sample_uuid 0 = ''id-0''"
  by code_simp

lemma legacy_stored: "getItem [(''posts'', legacy_text)] ''posts'' = Some legacy_text"
  by (simp add: getItem_def)

lemma legacy_nonempty: "legacy_text \<noteq> []"
  by (simp add: legacy_text_def)

lemma legacy_parsed:
  "JSON_parse sample_host legacy_text
   = Some (Arr [Obj [(''title'', Str ''Old''), (''tags'', Arr [Str ''pets''])],
                Obj [(''id'', Str ''a1''), (''title'', Str ''Kept'')]])"
  by (simp add: sample_host_def sample_parse_def legacy_text_def)

subsection \<open>The claim about loading\<close>

text \<open>
  C9. When the key \<^verbatim>\<open>"posts"\<close> holds the JSON text of a non-empty array of objects,
  \<open>getPosts\<close> returns as many posts, in the same order, and leaves the storage as it
  was. Every property other than \<^verbatim>\<open>id\<close> is as stored; an \<^verbatim>\<open>id\<close> that is present (not
  \<^verbatim>\<open>undefined\<close>, not \<^verbatim>\<open>null\<close>) is kept; a record that lacks one receives the next
  identifier the generator hands out. With a generator that never repeats itself, never
  returns the empty string and never returns a stored identifier, the identifier a record
  receives is non-empty and differs from the identifier of every other record. This
  holds for every call and every storage state: the identifiers are assigned on each load.
\<close>

theorem getPosts_assigns_missing_ids:
  assumes "getItem st ''posts'' = Some txt" and "txt \<noteq> []"
    and "JSON_parse h txt = Some (Arr vs)" and "vs \<noteq> []" and "list_all is_Obj vs"
    and "inj (randomUUID h)" and "\<forall>k. randomUUID h k \<noteq> []"
    and "\<forall>k. list_all (\<lambda>v. field (props v) ''id'' \<noteq> Str (randomUUID h k)) vs"
  shows "\<exists>ps m. getPosts h st n = (ps, st, m) \<and> length ps = length vs
     \<and> (\<forall>i<length vs.
          (\<forall>k. k \<noteq> ''id'' \<longrightarrow> map_of (ps ! i) k = map_of (props (vs ! i)) k)
        \<and> (\<not> lacks_id (vs ! i) \<longrightarrow> field (ps ! i) ''id'' = field (props (vs ! i)) ''id'')
        \<and> (lacks_id (vs ! i) \<longrightarrow>
             field (ps ! i) ''id'' = Str (randomUUID h (n + missing_before vs i))
           \<and> field (ps ! i) ''id'' \<noteq> Str []
           \<and> (\<forall>j<length vs. j \<noteq> i \<longrightarrow> field (ps ! j) ''id'' \<noteq> field (ps ! i) ''id'')))"
proof -
  obtain ps where run: "assign_ids h vs n = (Inr ps, n + length (filter lacks_id vs))"
    and len: "length ps = length vs"
    and at: "\<And>i. i < length vs \<Longrightarrow>
            ps ! i = AList.update ''id''
                       (if lacks_id (vs ! i) then Str (randomUUID h (n + missing_before vs i))
                        else field (props (vs ! i)) ''id'')
                       (props (vs ! i))"
    using assign_ids_objects [OF assms(5), of h n] by blast
  have load: "getPosts h st n = (ps, st, n + length (filter lacks_id vs))"
    using assms(1-4) run by (simp add: getPosts_def getPosts_try_def)
  have id_at: "field (ps ! i) ''id''
               = (if lacks_id (vs ! i) then Str (randomUUID h (n + missing_before vs i))
                  else field (props (vs ! i)) ''id'')" if "i < length vs" for i
    using at [OF that] by (simp add: field_update)
  have others: "map_of (ps ! i) k = map_of (props (vs ! i)) k" if "i < length vs" and "k \<noteq> ''id''" for i k
    using at [OF that(1)] that(2) by (simp add: update_conv')
  have unique: "field (ps ! j) ''id'' \<noteq> field (ps ! i) ''id''"
    if i: "i < length vs" and j: "j < length vs" and ne: "j \<noteq> i" and lack: "lacks_id (vs ! i)" for i j
  proof (cases "lacks_id (vs ! j)")
    case True
    have "missing_before vs i \<noteq> missing_before vs j"
    proof (cases "i < j")
      case True
      then show ?thesis using missing_before_strict [OF True i lack] by simp
    next
      case False
      then have "j < i" using ne by simp
      then show ?thesis using missing_before_strict [OF _ j True] by fastforce
    qed
    then have "randomUUID h (n + missing_before vs j) \<noteq> randomUUID h (n + missing_before vs i)"
      using assms(6) by (simp add: inj_eq)
    then show ?thesis using True lack by (simp add: id_at i j)
  next
    case False
    have "vs ! j \<in> set vs" using j by simp
    then have "field (props (vs ! j)) ''id'' \<noteq> Str (randomUUID h (n + missing_before vs i))"
      using assms(8) by (simp add: list_all_iff)
    then show ?thesis using False lack by (simp add: id_at i j)
  qed
  have nonempty: "field (ps ! i) ''id'' \<noteq> Str []" if "i < length vs" and "lacks_id (vs ! i)" for i
    using that assms(7) by (simp add: id_at)
  show ?thesis
    using load len id_at others unique nonempty by auto
qed


theorem getPosts_assigns_missing_ids_witness:
  "\<exists>ps m. getPosts sample_host [(''posts'', legacy_text)] 0 = (ps, [(''posts'', legacy_text)], m)
      \<and> length ps = 2
      \<and> field (ps ! 0) ''id'' = Str ''id-0''
      \<and> map_of (ps ! 0) ''title'' = Some (Str ''Old'')
      \<and> map_of (ps ! 0) ''tags'' = Some (Arr [Str ''pets''])
      \<and> field (ps ! 1) ''id'' = Str ''a1''
      \<and> map_of (ps ! 1) ''title'' = Some (Str ''Kept'')"
proof -
  let ?vs = "[Obj [(''title'', Str ''Old''), (''tags'', Arr [Str ''pets''])],
              Obj [(''id'', Str ''a1''), (''title'', Str ''Kept'')]]"
  have objs: "list_all is_Obj ?vs" by simp
  have ne: "?vs \<noteq> []" by simp
  have gen: "randomUUID sample_host = sample_uuid" by (simp add: sample_host_def)
  have inj: "inj (randomUUID sample_host)" by (simp add: gen inj_sample_uuid)
  have nonempty: "\<forall>k. randomUUID sample_host k \<noteq> []" by (simp add: gen sample_uuid_nonempty)
  have fresh: "\<forall>k. list_all (\<lambda>v. field (props v) ''id'' \<noteq> Str (randomUUID sample_host k)) ?vs"
    by (simp add: gen sample_uuid_def field_def)
  have l0: "lacks_id (?vs ! 0)" by (simp add: lacks_id_def nullish_def field_def)
  have l1: "\<not> lacks_id (?vs ! 1)" by (simp add: lacks_id_def nullish_def field_def)
  have first: "randomUUID sample_host (0 + missing_before ?vs 0) = ''id-0''"
    by (simp add: gen sample_uuid_0 missing_before_def)
  from getPosts_assigns_missing_ids
    [OF legacy_stored legacy_nonempty legacy_parsed ne objs inj nonempty fresh, of 0]
  obtain ps m where run: "getPosts sample_host [(''posts'', legacy_text)] 0 = (ps, [(''posts'', legacy_text)], m)"
    and len: "length ps = length ?vs"
    and at: "\<forall>i<length ?vs.
          (\<forall>k. k \<noteq> ''id'' \<longrightarrow> map_of (ps ! i) k = map_of (props (?vs ! i)) k)
        \<and> (\<not> lacks_id (?vs ! i) \<longrightarrow> field (ps ! i) ''id'' = field (props (?vs ! i)) ''id'')
        \<and> (lacks_id (?vs ! i) \<longrightarrow>
             field (ps ! i) ''id'' = Str (randomUUID sample_host (0 + missing_before ?vs i))
           \<and> field (ps ! i) ''id'' \<noteq> Str []
           \<and> (\<forall>j<length ?vs. j \<noteq> i \<longrightarrow> field (ps ! j) ''id'' \<noteq> field (ps ! i) ''id''))"
    by blast
  have a0: "field (ps ! 0) ''id'' = Str ''id-0''"
    using at l0 first by simp
  have b0: "map_of (ps ! 0) ''title'' = Some (Str ''Old'')"
    and c0: "map_of (ps ! 0) ''tags'' = Some (Arr [Str ''pets''])"
    using at by simp_all
  have a1: "field (ps ! 1) ''id'' = Str ''a1''"
    using at l1 by (simp add: field_def)
  have b1: "map_of (ps ! 1) ''title'' = Some (Str ''Kept'')"
    using at by simp
  show ?thesis using run len a0 b0 c0 a1 b1 by simp
qed

end
